theory Spec2Isabelle
  imports Complex_Main
begin

section \<open>Numbers\<close>

text \<open>
  The renderer computes with JavaScript numbers. They are modelled as exact reals:
  \<open>Math.max\<close> and \<open>Math.min\<close> are \<open>max\<close> and \<open>min\<close>, \<open>Math.sqrt\<close> is \<open>sqrt\<close>.
  Rounding, infinities and NaN are outside this model. A division by zero, which
  JavaScript answers with an infinity or NaN, is kept out of every theorem: the
  theorems about the projection and the handlers assume a canvas of positive size and a
  positive zoom, the distance to a segment divides under the guard of the code, and the
  point-in-polygon test uses a division that reports a zero divisor as a failure.
\<close>

section \<open>GeoJSONMapRenderer: zoom and pan state\<close>

text \<open>
  The fields of the renderer that the projection and the input handlers read or write.
  \<open>canvas_width\<close> and \<open>canvas_height\<close> stand for \<open>this.canvas.width\<close> and
  \<open>this.canvas.height\<close>.
\<close>

record renderer =
  canvas_width :: real
  canvas_height :: real
  zoom :: real
  minZoom :: real
  maxZoom :: real
  panX :: real
  panY :: real
  isDragging :: bool
  dragStartX :: real
  dragStartY :: real
  lastPanX :: real
  lastPanY :: real

text \<open>The constructor, for a canvas of the given size.\<close>

definition new_renderer :: "real \<Rightarrow> real \<Rightarrow> renderer" where
  "new_renderer w h =
     \<lparr> canvas_width = w, canvas_height = h,
       zoom = 1, minZoom = 1, maxZoom = 25,
       panX = 0, panY = 0,
       isDragging = False,
       dragStartX = 0, dragStartY = 0,
       lastPanX = 0, lastPanY = 0 \<rparr>"

subsection \<open>Projection\<close>

text \<open>\<open>toCanvas(lat, lon)\<close> returns \<open>{x, y}\<close>, here the pair \<open>(x, y)\<close>.\<close>

definition toCanvas :: "renderer \<Rightarrow> real \<Rightarrow> real \<Rightarrow> real \<times> real" where
  "toCanvas r lat lon =
     (let baseX = canvas_width r * ((lon + 180) / 360);
          baseY = canvas_height r * ((90 - lat) / 180);
          centerX = canvas_width r / 2;
          centerY = canvas_height r / 2;
          x = centerX + (baseX - centerX) * zoom r + panX r;
          y = centerY + (baseY - centerY) * zoom r + panY r
      in (x, y))"

text \<open>\<open>toLatLon(canvasX, canvasY)\<close> returns \<open>{lat, lon}\<close>, here the pair \<open>(lat, lon)\<close>.\<close>

definition toLatLon :: "renderer \<Rightarrow> real \<Rightarrow> real \<Rightarrow> real \<times> real" where
  "toLatLon r canvasX canvasY =
     (let centerX = canvas_width r / 2;
          centerY = canvas_height r / 2;
          baseX = ((canvasX - panX r) - centerX) / zoom r + centerX;
          baseY = ((canvasY - panY r) - centerY) / zoom r + centerY;
          lon = (baseX / canvas_width r) * 360 - 180;
          lat = 90 - (baseY / canvas_height r) * 180
      in (lat, lon))"

subsection \<open>Input handlers\<close>

definition constrainPan :: "renderer \<Rightarrow> renderer" where
  "constrainPan r =
     (let scaledWidth = canvas_width r * zoom r;
          scaledHeight = canvas_height r * zoom r;
          maxPanX = (scaledWidth - canvas_width r) / 2;
          maxPanY = (scaledHeight - canvas_height r) / 2
      in r\<lparr> panX := max (- maxPanX) (min maxPanX (panX r)),
             panY := max (- maxPanY) (min maxPanY (panY r)) \<rparr>)"

text \<open>
  \<open>handleWheel(e, mouseX, mouseY)\<close>: the event is read for \<open>e.deltaY\<close> only. The
  handler returns \<open>true\<close> (a redraw is needed) and the renderer it leaves behind.
\<close>

definition newZoom :: "renderer \<Rightarrow> real \<Rightarrow> real" where
  "newZoom r deltaY =
     (let zoomFactor = (if deltaY > 0 then 9 / 10 else 11 / 10)
      in max (minZoom r) (min (maxZoom r) (zoom r * zoomFactor)))"

definition handleWheel :: "renderer \<Rightarrow> real \<Rightarrow> real \<Rightarrow> real \<Rightarrow> bool \<times> renderer" where
  "handleWheel r deltaY mouseX mouseY =
     (if newZoom r deltaY \<noteq> zoom r then
        (let (lat, lon) = toLatLon r mouseX mouseY;
             r1 = r\<lparr> zoom := newZoom r deltaY \<rparr>;
             newPos = toCanvas r1 lat lon;
             r2 = r1\<lparr> panX := panX r1 + (mouseX - fst newPos) \<rparr>;
             r3 = r2\<lparr> panY := panY r2 + (mouseY - snd newPos) \<rparr>
         in (True, constrainPan r3))
      else (True, r))"

definition handleMouseDown :: "renderer \<Rightarrow> real \<Rightarrow> real \<Rightarrow> renderer" where
  "handleMouseDown r mouseX mouseY =
     r\<lparr> isDragging := True,
        dragStartX := mouseX,
        dragStartY := mouseY,
        lastPanX := panX r,
        lastPanY := panY r \<rparr>"

definition handleMouseMove :: "renderer \<Rightarrow> real \<Rightarrow> real \<Rightarrow> bool \<times> renderer" where
  "handleMouseMove r mouseX mouseY =
     (if isDragging r then
        (let r1 = r\<lparr> panX := lastPanX r + (mouseX - dragStartX r) \<rparr>;
             r2 = r1\<lparr> panY := lastPanY r1 + (mouseY - dragStartY r1) \<rparr>
         in (True, constrainPan r2))
      else (False, r))"

definition handleMouseUp :: "renderer \<Rightarrow> renderer" where
  "handleMouseUp r = r\<lparr> isDragging := False \<rparr>"

definition resetView :: "renderer \<Rightarrow> renderer" where
  "resetView r = r\<lparr> zoom := 1, panX := 0, panY := 0 \<rparr>"

text \<open>The input events of the view, and the renderer after a sequence of them.\<close>

datatype event =
    Wheel real real real
  | MouseDown real real
  | MouseMove real real
  | MouseUp
  | ResetView

fun handle :: "renderer \<Rightarrow> event \<Rightarrow> renderer" where
  "handle r (Wheel deltaY mouseX mouseY) = snd (handleWheel r deltaY mouseX mouseY)"
| "handle r (MouseDown mouseX mouseY) = handleMouseDown r mouseX mouseY"
| "handle r (MouseMove mouseX mouseY) = snd (handleMouseMove r mouseX mouseY)"
| "handle r MouseUp = handleMouseUp r"
| "handle r ResetView = resetView r"

definition after_events :: "renderer \<Rightarrow> event list \<Rightarrow> renderer" where
  "after_events r evs = foldl handle r evs"

text \<open>
  The pan clamp of the view: the pan stays within half of what the zoomed map overhangs
  the canvas, on both axes.
\<close>

definition pan_clamped :: "renderer \<Rightarrow> bool" where
  "pan_clamped r \<longleftrightarrow>
     \<bar>panX r\<bar> \<le> (canvas_width r * zoom r - canvas_width r) / 2 \<and>
     \<bar>panY r\<bar> \<le> (canvas_height r * zoom r - canvas_height r) / 2"

text \<open>
  What every input handler keeps: the canvas size and the zoom limits of the
  constructor, the zoom within its limits, the pan clamped.
\<close>

definition view_inv :: "real \<Rightarrow> real \<Rightarrow> renderer \<Rightarrow> bool" where
  "view_inv w h r \<longleftrightarrow>
     canvas_width r = w \<and> canvas_height r = h \<and>
     minZoom r = 1 \<and> maxZoom r = 25 \<and>
     minZoom r \<le> zoom r \<and> zoom r \<le> maxZoom r \<and> pan_clamped r"

text \<open>
  The renderer of a 360 by 180 canvas after one wheel step inwards with the cursor at
  the top left corner.
\<close>

definition zoomed_in_at_corner :: renderer where
  "zoomed_in_at_corner =
     \<lparr> canvas_width = 360, canvas_height = 180,
       zoom = 11 / 10, minZoom = 1, maxZoom = 25,
       panX = 18, panY = 9,
       isDragging = False,
       dragStartX = 0, dragStartY = 0,
       lastPanX = 0, lastPanY = 0 \<rparr>"

section \<open>Hit testing\<close>

subsection \<open>Failures\<close>

text \<open>
  What an evaluation can run into. \<open>TypeError\<close> is the exception JavaScript throws when
  a property of \<open>undefined\<close> is read or \<open>undefined\<close> is destructured. A division by
  zero throws nothing in JavaScript, its value is an infinity or NaN; as these are not
  reals, the model reports it as \<open>DivisionByZero\<close>.
\<close>

datatype failure = TypeError | DivisionByZero

definition js_div :: "real \<Rightarrow> real \<Rightarrow> failure + real" where
  "js_div a b = (if b = 0 then Inl DivisionByZero else Inr (a / b))"

text \<open>\<open>const [a, b] = xs[k]\<close>: the element, or the TypeError of destructuring \<open>undefined\<close>.\<close>

definition element :: "'a list \<Rightarrow> int \<Rightarrow> failure + 'a" where
  "element xs k = (if 0 \<le> k \<and> k < int (length xs) then Inr (xs ! nat k) else Inl TypeError)"

subsection \<open>Point in polygon\<close>

text \<open>
  A GeoJSON position is \<open>[lon, lat]\<close>, here the pair \<open>(lon, lat)\<close>; a ring is an array
  of positions, the coordinates of a polygon an array of rings, the outer ring first.
\<close>

type_synonym position = "real \<times> real"
type_synonym ring = "position list"

text \<open>
  The test of one edge in \<open>isPointInPolygon\<close>. \<open>&&\<close> evaluates its right operand, and
  with it the division, only when the left one is true.
\<close>

definition intersect :: "real \<Rightarrow> real \<Rightarrow> position \<Rightarrow> position \<Rightarrow> failure + bool" where
  "intersect lat lon p q =
     (case (p, q) of ((xi, yi), (xj, yj)) \<Rightarrow>
        if (yi > lat) \<noteq> (yj > lat) then
          (case js_div ((xj - xi) * (lat - yi)) (yj - yi) of
             Inl e \<Rightarrow> Inl e
           | Inr d \<Rightarrow> Inr (lon < d + xi))
        else Inr False)"

text \<open>
  The loop \<open>for (let i = 0, j = ring.length - 1; i < ring.length; j = i++)\<close>, from the
  state \<open>i\<close>, \<open>j\<close>, \<open>inside\<close>.
\<close>

function isPointInPolygon_loop ::
  "real \<Rightarrow> real \<Rightarrow> ring \<Rightarrow> int \<Rightarrow> int \<Rightarrow> bool \<Rightarrow> failure + bool" where
  "isPointInPolygon_loop lat lon ring i j inside =
     (if i < int (length ring) then
        (case element ring i of
           Inl e \<Rightarrow> Inl e
         | Inr p \<Rightarrow>
             (case element ring j of
                Inl e \<Rightarrow> Inl e
              | Inr q \<Rightarrow>
                  (case intersect lat lon p q of
                     Inl e \<Rightarrow> Inl e
                   | Inr b \<Rightarrow>
                       isPointInPolygon_loop lat lon ring (i + 1) i
                         (if b then \<not> inside else inside))))
      else Inr inside)"
  by pat_completeness auto
termination
  by (relation "measure (\<lambda>(lat, lon, ring, i, j, inside). nat (int (length ring) - i))") auto

text \<open>\<open>isPointInPolygon(lat, lon, coordinates)\<close>; \<open>coordinates[0]\<close> of an empty array is
  \<open>undefined\<close>, and reading its \<open>length\<close> throws.\<close>

definition isPointInPolygon :: "real \<Rightarrow> real \<Rightarrow> ring list \<Rightarrow> failure + bool" where
  "isPointInPolygon lat lon coordinates =
     (case coordinates of
        [] \<Rightarrow> Inl TypeError
      | ring # _ \<Rightarrow> isPointInPolygon_loop lat lon ring 0 (int (length ring) - 1) False)"

text \<open>The geometry of a GeoJSON feature, by its \<open>type\<close>.\<close>

datatype geometry =
    Polygon "ring list"
  | MultiPolygon "ring list list"
  | OtherGeometry

record country =
  name :: string
  geometry :: geometry

text \<open>The loop \<open>for (const polygon of geometry.coordinates)\<close> of \<open>isPointInCountry\<close>.\<close>

fun isPointInCountry_loop :: "real \<Rightarrow> real \<Rightarrow> ring list list \<Rightarrow> failure + bool" where
  "isPointInCountry_loop lat lon [] = Inr False"
| "isPointInCountry_loop lat lon (polygon # polygons) =
     (case isPointInPolygon lat lon polygon of
        Inl e \<Rightarrow> Inl e
      | Inr b \<Rightarrow> if b then Inr True else isPointInCountry_loop lat lon polygons)"

definition isPointInCountry :: "real \<Rightarrow> real \<Rightarrow> country \<Rightarrow> failure + bool" where
  "isPointInCountry lat lon c =
     (case geometry c of
        Polygon coordinates \<Rightarrow> isPointInPolygon lat lon coordinates
      | MultiPolygon polygons \<Rightarrow> isPointInCountry_loop lat lon polygons
      | OtherGeometry \<Rightarrow> Inr False)"



text \<open>
  The even-odd rule in closed form, for comparison with the loop: edge \<open>i\<close> of a ring
  joins point \<open>i\<close> to the point before it, the first point to the last; an edge is
  crossed when its ends lie on different sides of the latitude and the longitude is
  west of the edge there.
\<close>

definition edges :: "ring \<Rightarrow> (position \<times> position) list" where
  "edges ring = (if ring = [] then [] else zip ring (last ring # butlast ring))"

definition crossed :: "real \<Rightarrow> real \<Rightarrow> position \<times> position \<Rightarrow> bool" where
  "crossed lat lon e =
     (case e of ((xi, yi), (xj, yj)) \<Rightarrow>
        (yi > lat) \<noteq> (yj > lat) \<and> lon < (xj - xi) * (lat - yi) / (yj - yi) + xi)"

definition even_odd :: "real \<Rightarrow> real \<Rightarrow> ring \<Rightarrow> bool" where
  "even_odd lat lon ring = odd (length (filter (crossed lat lon) (edges ring)))"

subsection \<open>Distance to a segment\<close>

definition distanceToLineSegment ::
  "real \<Rightarrow> real \<Rightarrow> real \<Rightarrow> real \<Rightarrow> real \<Rightarrow> real \<Rightarrow> real" where
  "distanceToLineSegment px py x1 y1 x2 y2 =
     (let dx = x2 - x1;
          dy = y2 - y1;
          lengthSquared = dx * dx + dy * dy
      in if lengthSquared = 0 then
           sqrt ((px - x1) * (px - x1) + (py - y1) * (py - y1))
         else
           (let t0 = ((px - x1) * dx + (py - y1) * dy) / lengthSquared;
                t = max 0 (min 1 t0);
                nearestX = x1 + t * dx;
                nearestY = y1 + t * dy
            in sqrt ((px - nearestX) * (px - nearestX) + (py - nearestY) * (py - nearestY))))"

text \<open>
  For comparison: the Euclidean distance of two points of the coordinate plane, and the
  scalar projection of a point onto the line through two points, as a parameter along
  the segment.
\<close>

definition euclidean :: "real \<Rightarrow> real \<Rightarrow> real \<Rightarrow> real \<Rightarrow> real" where
  "euclidean px py qx qy = sqrt ((px - qx) * (px - qx) + (py - qy) * (py - qy))"

definition scalar_projection ::
  "real \<Rightarrow> real \<Rightarrow> real \<Rightarrow> real \<Rightarrow> real \<Rightarrow> real \<Rightarrow> real" where
  "scalar_projection px py x1 y1 x2 y2 =
     ((px - x1) * (x2 - x1) + (py - y1) * (y2 - y1))
       / ((x2 - x1) * (x2 - x1) + (y2 - y1) * (y2 - y1))"

subsection \<open>Shipping lanes\<close>

text \<open>
  A shipping lane of \<open>getShippingLaneData\<close>: its \<open>id\<close>, its \<open>riskLevel\<close> and its
  \<open>coords\<close>, an open polyline of \<open>[lat, lon]\<close> pairs. The texts of the hover card
  (\<open>name\<close>, \<open>description\<close>, \<open>tradeVolume\<close>, \<open>keyPorts\<close>, \<open>strategicValue\<close>) are not
  read by the hover query and are left out.
\<close>

record lane =
  lane_id :: string
  riskLevel :: string
  coords :: "(real \<times> real) list"

definition getShippingLaneData :: "lane list" where
  "getShippingLaneData =
     [
      \<lparr> lane_id = ''suez-canal'', riskLevel = ''HIGH'',
        coords =
          [(35, - 6), (36, 0), (37, 10), (33, 28), (31.5, 32.3), (30, 32.5),
           (29.5, 32.5), (27.5, 34), (22, 38), (15, 42), (12.5, 43.5), (12, 45),
           (11.5, 51), (10, 55), (5, 60), (- 2, 65)] \<rparr>,
      \<lparr> lane_id = ''malacca-strait'', riskLevel = ''MEDIUM'',
        coords =
          [(1.3, 103.8), (3, 105), (5, 104), (7, 106), (10, 109), (15, 113), (18, 115),
           (22, 114), (25, 120), (30, 123), (35, 130)] \<rparr>,
      \<lparr> lane_id = ''transatlantic-north'', riskLevel = ''LOW'',
        coords =
          [(40.5, - 74), (41, - 70), (42, - 65), (43, - 55), (47, - 40), (50, - 25),
           (50, - 10), (50.5, - 5), (51, 1)] \<rparr>,
      \<lparr> lane_id = ''transatlantic-south'', riskLevel = ''LOW'',
        coords =
          [(29, - 89), (25, - 84), (23, - 80), (22, - 75), (20, - 68), (18, - 65),
           (20, - 55), (25, - 40), (30, - 25), (34, - 10), (35.5, - 6)] \<rparr>,
      \<lparr> lane_id = ''cape-good-hope'', riskLevel = ''LOW'',
        coords =
          [(- 35, 18), (- 35, 22), (- 33, 28), (- 30, 33), (- 25, 37), (- 15, 42),
           (- 10, 48), (- 5, 55), (0, 60), (5, 65)] \<rparr>,
      \<lparr> lane_id = ''panama-pacific'', riskLevel = ''MEDIUM'',
        coords =
          [(9, - 79.5), (8, - 82), (5, - 85), (0, - 90), (- 5, - 100), (- 15, - 110)] \<rparr>,
      \<lparr> lane_id = ''panama-uswest'', riskLevel = ''MEDIUM'',
        coords =
          [(9, - 79.5), (12, - 85), (16, - 95), (22, - 106), (28, - 114), (33, - 118),
           (37, - 122), (42, - 125), (48, - 125)] \<rparr>,
      \<lparr> lane_id = ''transpacific-west'', riskLevel = ''LOW'',
        coords =
          [(35, 130), (35, 140), (33, 150), (30, 160), (28, 170)] \<rparr>,
      \<lparr> lane_id = ''transpacific-east'', riskLevel = ''LOW'',
        coords =
          [(26, - 170), (26, - 160), (28, - 150), (32, - 140), (35, - 130), (37, - 123)] \<rparr>,
      \<lparr> lane_id = ''persian-gulf-malacca'', riskLevel = ''HIGH'',
        coords =
          [(26.5, 56.5), (24, 58), (21, 62), (18, 68), (15, 73), (10, 76), (8, 77),
           (6, 80), (5, 85), (3, 95), (2, 100), (1.3, 103.8)] \<rparr>,
      \<lparr> lane_id = ''asia-australia'', riskLevel = ''LOW'',
        coords =
          [(22, 114), (18, 116), (12, 117), (5, 117), (0, 117), (- 3, 117), (- 6, 116),
           (- 8.5, 116), (- 10, 120), (- 12, 127), (- 14, 135), (- 18, 145),
           (- 25, 153), (- 34, 151)] \<rparr>,
      \<lparr> lane_id = ''bosphorus-mediterranean'', riskLevel = ''MEDIUM'',
        coords =
          [(41, 29), (40.5, 26.5), (39.5, 25), (37.5, 24), (35.5, 23), (35, 20),
           (35.5, 15), (37, 11), (37.5, 5), (36.5, 0), (35.8, - 5.5)] \<rparr>
     ]"

text \<open>
  The inner loop of \<open>getShippingLaneAtPoint\<close>,
  \<open>for (let i = 0; i < lane.coords.length - 1; i++)\<close>, from index \<open>i\<close>: whether it
  returns the lane. Both indices are within the array under the loop's guard.
\<close>

function near_segment_from ::
  "real \<Rightarrow> real \<Rightarrow> real \<Rightarrow> (real \<times> real) list \<Rightarrow> int \<Rightarrow> bool" where
  "near_segment_from lat lon threshold cs i =
     (if i < int (length cs) - 1 then
        (let p1 = cs ! nat i;
             p2 = cs ! nat (i + 1);
             dist = distanceToLineSegment lat lon (fst p1) (snd p1) (fst p2) (snd p2)
         in if dist < threshold then True
            else near_segment_from lat lon threshold cs (i + 1))
      else False)"
  by pat_completeness auto
termination
  by (relation "measure (\<lambda>(lat, lon, threshold, cs, i). nat (int (length cs) - i))") auto

text \<open>The outer loop \<open>for (const lane of lanes)\<close>; \<open>null\<close> is \<open>None\<close>.\<close>

fun first_near_lane :: "real \<Rightarrow> real \<Rightarrow> real \<Rightarrow> lane list \<Rightarrow> lane option" where
  "first_near_lane lat lon threshold [] = None"
| "first_near_lane lat lon threshold (l # lanes) =
     (if near_segment_from lat lon threshold (coords l) 0 then Some l
      else first_near_lane lat lon threshold lanes)"

definition getShippingLaneAtPoint :: "renderer \<Rightarrow> real \<Rightarrow> real \<Rightarrow> lane option" where
  "getShippingLaneAtPoint r mouseX mouseY =
     (let (lat, lon) = toLatLon r mouseX mouseY;
          lanes = getShippingLaneData;
          threshold = 3 / zoom r
      in first_near_lane lat lon threshold lanes)"

text \<open>
  For comparison: a lane has a segment within the threshold of a point when the
  distance from the point to one of its segments is less than the threshold.
\<close>

definition segment_within :: "real \<Rightarrow> real \<Rightarrow> real \<Rightarrow> lane \<Rightarrow> bool" where
  "segment_within lat lon threshold l \<longleftrightarrow>
     (\<exists>k \<in> {0 ..< length (coords l) - 1}.
        distanceToLineSegment lat lon
          (fst (coords l ! k)) (snd (coords l ! k))
          (fst (coords l ! (k + 1))) (snd (coords l ! (k + 1))) < threshold)"

section \<open>Drawing\<close>

subsection \<open>Polygons\<close>









subsection \<open>Labels\<close>

text \<open>A label box \<open>{x, y, width, height}\<close> on the screen.\<close>

record label_box =
  box_x :: real
  box_y :: real
  box_width :: real
  box_height :: real

text \<open>The overlap test inside \<open>labelBoxes.some(existing => ...)\<close>.\<close>

definition collides :: "label_box \<Rightarrow> label_box \<Rightarrow> bool" where
  "collides box existing \<longleftrightarrow>
     box_x box < box_x existing + box_width existing \<and>
     box_x box + box_width box > box_x existing \<and>
     box_y box < box_y existing + box_height existing \<and>
     box_y box + box_height box > box_y existing"


text \<open>\<open>bestPos = { labelX, labelY, box }\<close>.\<close>

record placement =
  labelX :: real
  labelY :: real
  box :: label_box





















section \<open>The view: projection, zoom and pan\<close>


lemma toCanvas_toLatLon:
  assumes "zoom r \<noteq> 0" "canvas_width r \<noteq> 0" "canvas_height r \<noteq> 0"
  shows "toCanvas r (fst (toLatLon r cx cy)) (snd (toLatLon r cx cy)) = (cx, cy)"
  using assms by (simp add: toLatLon_def toCanvas_def Let_def field_simps)

lemma clamp_abs: "0 \<le> m \<Longrightarrow> \<bar>max (- m) (min m (p::real))\<bar> \<le> m"
  by (auto simp: max_def min_def)

lemma constrainPan_clamped:
  assumes "0 \<le> canvas_width r" "0 \<le> canvas_height r" "1 \<le> zoom r"
  shows "pan_clamped (constrainPan r)"
proof -
  define mx where "mx = (canvas_width r * zoom r - canvas_width r) / 2"
  define my where "my = (canvas_height r * zoom r - canvas_height r) / 2"
  have "0 \<le> canvas_width r * (zoom r - 1)" "0 \<le> canvas_height r * (zoom r - 1)"
    using assms by simp_all
  then have "0 \<le> mx" "0 \<le> my"
    by (simp_all add: mx_def my_def algebra_simps)
  then have "\<bar>max (- mx) (min mx (panX r))\<bar> \<le> mx" "\<bar>max (- my) (min my (panY r))\<bar> \<le> my"
    by (simp_all only: clamp_abs)
  then show ?thesis
    unfolding pan_clamped_def constrainPan_def Let_def mx_def my_def by simp
qed

lemma constrainPan_fields [simp]:
  "canvas_width (constrainPan r) = canvas_width r"
  "canvas_height (constrainPan r) = canvas_height r"
  "zoom (constrainPan r) = zoom r"
  "minZoom (constrainPan r) = minZoom r"
  "maxZoom (constrainPan r) = maxZoom r"
  by (simp_all add: constrainPan_def Let_def)

lemma newZoom_range:
  "minZoom r \<le> maxZoom r \<Longrightarrow> minZoom r \<le> newZoom r d \<and> newZoom r d \<le> maxZoom r"
  by (simp add: newZoom_def Let_def)

lemma view_inv_handle:
  assumes "0 < w" "0 < h" "view_inv w h r"
  shows "view_inv w h (handle r ev)"
proof (cases ev)
  case (Wheel d mx my)
  show ?thesis
  proof (cases "newZoom r d = zoom r")
    case True
    then show ?thesis using assms Wheel by (simp add: handleWheel_def)
  next
    case False
    obtain lat lon where ll: "toLatLon r mx my = (lat, lon)" by (cases "toLatLon r mx my")
    define r3 where "r3 = (let r1 = r\<lparr> zoom := newZoom r d \<rparr>;
             newPos = toCanvas r1 lat lon;
             r2 = r1\<lparr> panX := panX r1 + (mx - fst newPos) \<rparr>
         in r2\<lparr> panY := panY r2 + (my - snd newPos) \<rparr>)"
    have h: "handle r ev = constrainPan r3"
      using False Wheel ll by (simp add: handleWheel_def r3_def Let_def)
    have f: "canvas_width r3 = w" "canvas_height r3 = h" "minZoom r3 = 1" "maxZoom r3 = 25"
        "zoom r3 = newZoom r d"
      using assms by (simp_all add: r3_def Let_def view_inv_def)
    have z: "1 \<le> newZoom r d \<and> newZoom r d \<le> 25"
      using newZoom_range[of r d] assms by (simp add: view_inv_def)
    have "pan_clamped (constrainPan r3)"
      using f z assms by (intro constrainPan_clamped) simp_all
    then show ?thesis using f z by (simp add: h view_inv_def)
  qed
next
  case (MouseDown mx my)
  then show ?thesis using assms by (auto simp: handleMouseDown_def view_inv_def pan_clamped_def)
next
  case (MouseMove mx my)
  show ?thesis
  proof (cases "isDragging r")
    case False
    then show ?thesis using assms MouseMove by (simp add: handleMouseMove_def)
  next
    case True
    define r2 where "r2 = (let r1 = r\<lparr> panX := lastPanX r + (mx - dragStartX r) \<rparr>
         in r1\<lparr> panY := lastPanY r1 + (my - dragStartY r1) \<rparr>)"
    have h: "handle r ev = constrainPan r2"
      using True MouseMove by (simp add: handleMouseMove_def r2_def Let_def)
    have f: "canvas_width r2 = w" "canvas_height r2 = h" "minZoom r2 = 1" "maxZoom r2 = 25"
        "zoom r2 = zoom r"
      using assms by (simp_all add: r2_def Let_def view_inv_def)
    have "pan_clamped (constrainPan r2)"
      using f assms by (intro constrainPan_clamped) (simp_all add: view_inv_def)
    then show ?thesis using f assms by (simp add: h view_inv_def)
  qed
next
  case MouseUp
  then show ?thesis using assms by (auto simp: handleMouseUp_def view_inv_def pan_clamped_def)
next
  case ResetView
  then show ?thesis using assms by (simp add: resetView_def view_inv_def pan_clamped_def)
qed

lemma view_inv_new: "view_inv w h (new_renderer w h)"
  by (simp add: view_inv_def new_renderer_def pan_clamped_def)

lemma view_inv_after_events:
  assumes "0 < w" "0 < h" "view_inv w h r"
  shows "view_inv w h (after_events r evs)"
  unfolding after_events_def using assms(3)
  by (induction evs arbitrary: r) (simp_all add: view_inv_handle[OF assms(1,2)])








text \<open>
  C3. From the renderer as constructed, on a canvas of positive size, after every finite
  sequence of wheel, mouse-down, mouse-move, mouse-up and reset events: the zoom is within
  [minZoom, maxZoom], the pan is within the clamp on both axes, and at zoom = minZoom
  the pan is (0, 0).
\<close>

theorem pan_clamp_invariant:
  assumes "0 < w" "0 < h"
  shows "minZoom (after_events (new_renderer w h) evs) \<le> zoom (after_events (new_renderer w h) evs) \<and>
    zoom (after_events (new_renderer w h) evs) \<le> maxZoom (after_events (new_renderer w h) evs) \<and>
    \<bar>panX (after_events (new_renderer w h) evs)\<bar>
      \<le> (w * zoom (after_events (new_renderer w h) evs) - w) / 2 \<and>
    \<bar>panY (after_events (new_renderer w h) evs)\<bar>
      \<le> (h * zoom (after_events (new_renderer w h) evs) - h) / 2 \<and>
    (zoom (after_events (new_renderer w h) evs) = minZoom (after_events (new_renderer w h) evs) \<longrightarrow>
       panX (after_events (new_renderer w h) evs) = 0 \<and>
       panY (after_events (new_renderer w h) evs) = 0)"
proof -
  define r where "r = after_events (new_renderer w h) evs"
  have inv: "view_inv w h r"
    unfolding r_def by (rule view_inv_after_events [OF assms view_inv_new])
  then have lim: "minZoom r \<le> zoom r" "zoom r \<le> maxZoom r"
    and px: "\<bar>panX r\<bar> \<le> (w * zoom r - w) / 2"
    and py: "\<bar>panY r\<bar> \<le> (h * zoom r - h) / 2"
    and mz: "minZoom r = 1"
    by (auto simp: view_inv_def pan_clamped_def)
  have "panX r = 0 \<and> panY r = 0" if "zoom r = minZoom r"
    using that px py mz by simp
  then show ?thesis
    using lim px py unfolding r_def by blast
qed

theorem pan_clamp_invariant_witness:
  "after_events (new_renderer 360 180) [Wheel (- 1) 0 0] = zoomed_in_at_corner \<and>
   \<bar>panX zoomed_in_at_corner\<bar> \<le> (360 * zoom zoomed_in_at_corner - 360) / 2 \<and>
   \<bar>panY zoomed_in_at_corner\<bar> \<le> (180 * zoom zoomed_in_at_corner - 180) / 2"
proof -
  have e: "after_events (new_renderer 360 180) [Wheel (- 1) 0 0] = zoomed_in_at_corner"
    by (simp add: after_events_def new_renderer_def handleWheel_def newZoom_def toLatLon_def
        toCanvas_def constrainPan_def Let_def zoomed_in_at_corner_def)
  show ?thesis
    using pan_clamp_invariant [of 360 180 "[Wheel (- 1) 0 0]"] unfolding e by simp
qed

text \<open>
  C10. A wheel event whose scaled and clamped zoom equals the current zoom leaves the
  whole renderer as it was: zoom, pan and every other field. With the zoom within
  positive limits this is the case exactly when the wheel turns outwards at minZoom or
  inwards at maxZoom.
\<close>

theorem handleWheel_saturated:
  "(newZoom r deltaY = zoom r \<longrightarrow> handleWheel r deltaY mouseX mouseY = (True, r)) \<and>
   (0 < minZoom r \<and> minZoom r \<le> zoom r \<and> zoom r \<le> maxZoom r \<longrightarrow>
      (newZoom r deltaY = zoom r \<longleftrightarrow>
         (deltaY > 0 \<and> zoom r = minZoom r) \<or> (\<not> deltaY > 0 \<and> zoom r = maxZoom r)))"
proof -
  have "handleWheel r deltaY mouseX mouseY = (True, r)" if "newZoom r deltaY = zoom r"
    using that by (simp add: handleWheel_def)
  moreover have "newZoom r deltaY = zoom r \<longleftrightarrow>
         (deltaY > 0 \<and> zoom r = minZoom r) \<or> (\<not> deltaY > 0 \<and> zoom r = maxZoom r)"
    if "0 < minZoom r" "minZoom r \<le> zoom r" "zoom r \<le> maxZoom r"
    using that by (auto simp: newZoom_def Let_def max_def min_def split: if_splits)
  ultimately show ?thesis by blast
qed

theorem handleWheel_saturated_witness:
  "handleWheel (new_renderer 360 180) 1 100 50 = (True, new_renderer 360 180) \<and>
   handleWheel (new_renderer 360 180 \<lparr> zoom := 25 \<rparr>) (- 1) 100 50
     = (True, new_renderer 360 180 \<lparr> zoom := 25 \<rparr>)"
  using handleWheel_saturated [of "new_renderer 360 180" 1 100 50]
    handleWheel_saturated [of "new_renderer 360 180 \<lparr> zoom := 25 \<rparr>" "- 1" 100 50]
  by (simp add: new_renderer_def newZoom_def)




section \<open>Hit testing: point in polygon\<close>

declare isPointInPolygon_loop.simps [simp del]

lemma intersect_crossed: "intersect lat lon p q = Inr (crossed lat lon (p, q))"
  by (cases p; cases q) (auto simp: intersect_def crossed_def js_div_def)

lemma length_edges [simp]: "length (edges ring) = length ring"
  by (cases ring rule: rev_cases) (simp_all add: edges_def)

lemma edges_nth:
  assumes "k < length ring"
  shows "edges ring ! k = (ring ! k, ring ! (if k = 0 then length ring - 1 else k - 1))"
proof -
  have ne: "ring \<noteq> []" using assms by auto
  have lb: "length (butlast ring) = length ring - 1" by simp
  have "(last ring # butlast ring) ! k = ring ! (if k = 0 then length ring - 1 else k - 1)"
  proof (cases k)
    case 0
    then show ?thesis using ne by (simp add: last_conv_nth)
  next
    case (Suc m)
    then have "m < length (butlast ring)" using assms by simp
    then show ?thesis using Suc by (simp add: nth_butlast)
  qed
  then show ?thesis
    using assms ne by (simp add: edges_def)
qed

lemma isPointInPolygon_loop_even_odd:
  assumes "0 \<le> i" "i \<le> int (length ring)"
    and "j = (if i = 0 then int (length ring) - 1 else i - 1)"
  shows "isPointInPolygon_loop lat lon ring i j inside
         = Inr (inside \<noteq> odd (length (filter (crossed lat lon) (drop (nat i) (edges ring)))))"
  using assms
proof (induction lat lon ring i j inside rule: isPointInPolygon_loop.induct)
  case (1 lat lon ring i j inside)
  show ?case
  proof (cases "i < int (length ring)")
    case False
    then have "drop (nat i) (edges ring) = []" using "1.prems" by simp
    then show ?thesis
      using False by (simp add: isPointInPolygon_loop.simps [of lat lon ring i j inside])
  next
    case True
    define k where "k = nat i"
    have k: "k < length ring" "i = int k" using True "1.prems" by (simp_all add: k_def)
    define m where "m = (if k = 0 then length ring - 1 else k - 1)"
    have m: "m < length ring" "j = int m"
      using k "1.prems"(3) by (auto simp: m_def)
    have ei: "element ring i = Inr (ring ! k)"
      using k by (simp add: element_def)
    have ej: "element ring j = Inr (ring ! m)"
      using m by (simp add: element_def)
    define b where "b = crossed lat lon (ring ! k, ring ! m)"
    have ib: "intersect lat lon (ring ! k) (ring ! m) = Inr b"
      by (simp add: intersect_crossed b_def)
    have step: "isPointInPolygon_loop lat lon ring i j inside
      = isPointInPolygon_loop lat lon ring (i + 1) i (if b then \<not> inside else inside)"
      using True by (simp add: isPointInPolygon_loop.simps [of lat lon ring i j inside] ei ej ib)
    have ih: "isPointInPolygon_loop lat lon ring (i + 1) i (if b then \<not> inside else inside)
      = Inr ((if b then \<not> inside else inside)
              \<noteq> odd (length (filter (crossed lat lon) (drop (nat (i + 1)) (edges ring)))))"
      using True "1.prems"(1) ei ej ib
      by (intro "1.IH" [of "ring ! k" "ring ! m" b]) simp_all
    have "drop k (edges ring) = edges ring ! k # drop (Suc k) (edges ring)"
      using k by (simp add: Cons_nth_drop_Suc)
    moreover have "edges ring ! k = (ring ! k, ring ! m)"
      using k by (simp add: edges_nth m_def)
    moreover have "nat (i + 1) = Suc k" using k by simp
    ultimately show ?thesis
      unfolding step ih by (auto simp: b_def k_def)
  qed
qed

lemma isPointInPolygon_even_odd:
  "isPointInPolygon lat lon (ring # holes) = Inr (even_odd lat lon ring)"
  using isPointInPolygon_loop_even_odd [of 0 ring "int (length ring) - 1" lat lon False]
  by (simp add: isPointInPolygon_def even_odd_def)






lemma isPointInCountry_loop_any:
  assumes "\<forall>polygon \<in> set polygons. polygon \<noteq> []"
  shows "isPointInCountry_loop lat lon polygons
         = Inr (\<exists>polygon \<in> set polygons. even_odd lat lon (hd polygon))"
  using assms
proof (induction polygons)
  case Nil
  then show ?case by simp
next
  case (Cons polygon polygons)
  then obtain ring holes where p: "polygon = ring # holes"
    by (cases polygon) auto
  show ?case
    using Cons by (simp add: p isPointInPolygon_even_odd)
qed

text \<open>
  C5. \<open>isPointInPolygon\<close> is the even-odd rule over the edges of the first ring of the
  coordinate array: the rings after it (the holes) never change the result. A Polygon
  feature contains a point iff its outer ring does, a MultiPolygon feature (each part
  with an outer ring) iff the outer ring of at least one part does. For the square ring
  [(0,0),(0,10),(10,10),(10,0)] the test is true at (5,5) and false at (15,15).
\<close>

theorem isPointInPolygon_outer_ring_even_odd:
  "isPointInPolygon lat lon (ring # holes) = Inr (even_odd lat lon ring) \<and>
   isPointInPolygon lat lon (ring # holes) = isPointInPolygon lat lon (ring # holes') \<and>
   (geometry c = Polygon (ring # holes) \<longrightarrow>
      isPointInCountry lat lon c = Inr (even_odd lat lon ring)) \<and>
   (geometry c = MultiPolygon polygons \<and> (\<forall>polygon \<in> set polygons. polygon \<noteq> []) \<longrightarrow>
      isPointInCountry lat lon c
        = Inr (\<exists>polygon \<in> set polygons. even_odd lat lon (hd polygon))) \<and>
   isPointInPolygon 5 5 [[(0, 0), (0, 10), (10, 10), (10, 0)]] = Inr True \<and>
   isPointInPolygon 15 15 [[(0, 0), (0, 10), (10, 10), (10, 0)]] = Inr False"
proof -
  have a: "isPointInPolygon lat lon (ring # hs) = Inr (even_odd lat lon ring)" for hs
    by (rule isPointInPolygon_even_odd)
  have b: "isPointInCountry lat lon c = Inr (even_odd lat lon ring)"
    if "geometry c = Polygon (ring # holes)"
    using that by (simp add: isPointInCountry_def a)
  have m: "isPointInCountry lat lon c
        = Inr (\<exists>polygon \<in> set polygons. even_odd lat lon (hd polygon))"
    if "geometry c = MultiPolygon polygons" "\<forall>polygon \<in> set polygons. polygon \<noteq> []"
    using that by (simp add: isPointInCountry_def isPointInCountry_loop_any)
  have s1: "isPointInPolygon 5 5 [[(0, 0), (0, 10), (10, 10), (10, 0)]] = Inr True"
    by (simp add: isPointInPolygon_even_odd even_odd_def edges_def crossed_def)
  have s2: "isPointInPolygon 15 15 [[(0, 0), (0, 10), (10, 10), (10, 0)]] = Inr False"
    by (simp add: isPointInPolygon_even_odd even_odd_def edges_def crossed_def)
  show ?thesis
    using a [of holes] a [of holes'] b m s1 s2 by (simp only: simp_thms) blast
qed

theorem isPointInPolygon_outer_ring_even_odd_witness:
  "isPointInCountry 5 5
     \<lparr> name = ''Two squares'',
       geometry = MultiPolygon
         [[[(20, 20), (20, 30), (30, 30), (30, 20)]],
          [[(0, 0), (0, 10), (10, 10), (10, 0)], [(4, 4), (4, 6), (6, 6), (6, 4)]]] \<rparr>
   = Inr True"
  using isPointInPolygon_outer_ring_even_odd
    [of 5 5 "[]" "[]" "[]" "\<lparr> name = ''Two squares'',
       geometry = MultiPolygon
         [[[(20, 20), (20, 30), (30, 30), (30, 20)]],
          [[(0, 0), (0, 10), (10, 10), (10, 0)], [(4, 4), (4, 6), (6, 6), (6, 4)]]] \<rparr>"
       "[[[(20, 20), (20, 30), (30, 30), (30, 20)]],
          [[(0, 0), (0, 10), (10, 10), (10, 0)], [(4, 4), (4, 6), (6, 6), (6, 4)]]]"]
  by (simp add: even_odd_def edges_def crossed_def)



section \<open>Hit testing: distance to a segment\<close>

text \<open>The squared distance from the point to the point at parameter \<open>s\<close> of the segment.\<close>

lemma segment_quadratic:
  fixes a b dx dy s t L :: real
  assumes "L = dx * dx + dy * dy" "c = a * dx + b * dy"
  shows "((a - s * dx) * (a - s * dx) + (b - s * dy) * (b - s * dy))
       - ((a - t * dx) * (a - t * dx) + (b - t * dy) * (b - t * dy))
       = (s - t) * ((s + t) * L - 2 * c)"
  unfolding assms by (simp add: algebra_simps)

lemma clamped_parameter_nearest:
  fixes a b dx dy s :: real
  assumes L: "dx * dx + dy * dy \<noteq> 0" and s: "0 \<le> s" "s \<le> 1"
  defines "t \<equiv> max 0 (min 1 ((a * dx + b * dy) / (dx * dx + dy * dy)))"
  shows "(a - t * dx) * (a - t * dx) + (b - t * dy) * (b - t * dy)
       \<le> (a - s * dx) * (a - s * dx) + (b - s * dy) * (b - s * dy)"
proof -
  define L where "L = dx * dx + dy * dy"
  define c where "c = a * dx + b * dy"
  have "0 \<le> L" by (simp add: L_def)
  moreover have "L \<noteq> 0" unfolding L_def by (rule L)
  ultimately have Lp: "0 < L" by linarith
  define u where "u = c / L"
  have cu: "c = u * L" using Lp by (simp add: u_def)
  have t: "t = max 0 (min 1 u)" by (simp add: t_def u_def c_def L_def)
  have "0 \<le> (s - t) * ((s + t) * L - 2 * c)"
  proof -
    have e: "(s - t) * ((s + t) * L - 2 * c) = L * ((s - t) * (s + t - 2 * u))"
      by (simp add: cu algebra_simps)
    have "0 \<le> (s - t) * (s + t - 2 * u)"
    proof -
      consider "u < 0" | "0 \<le> u" "u \<le> 1" | "1 < u" by linarith
      then show ?thesis
      proof cases
        case 1
        then have "t = 0" by (simp add: t)
        then show ?thesis using 1 s by simp
      next
        case 2
        then have "t = u" by (simp add: t)
        then have "(s - t) * (s + t - 2 * u) = (s - u) * (s - u)" by simp
        then show ?thesis by simp
      next
        case 3
        then have "t = 1" by (simp add: t)
        moreover have "0 \<le> (1 - s) * (2 * u - s - 1)"
          using 3 s by (intro mult_nonneg_nonneg) simp_all
        moreover have "(s - 1) * (s + 1 - 2 * u) = (1 - s) * (2 * u - s - 1)"
          by (simp add: algebra_simps)
        ultimately show ?thesis by simp
      qed
    qed
    then show ?thesis unfolding e using Lp by simp
  qed
  then show ?thesis
    using segment_quadratic [of L dx dy c a b s t] by (simp add: L_def c_def)
qed

lemma distanceToLineSegment_degenerate:
  "distanceToLineSegment px py x1 y1 x1 y1
   = sqrt ((px - x1) * (px - x1) + (py - y1) * (py - y1))"
  by (simp add: distanceToLineSegment_def)

lemma lengthSquared_zero_iff:
  fixes x1 y1 x2 y2 :: real
  shows "(x2 - x1) * (x2 - x1) + (y2 - y1) * (y2 - y1) = 0 \<longleftrightarrow> x1 = x2 \<and> y1 = y2"
  by (auto simp: sum_power2_eq_zero_iff power2_eq_square [symmetric])

lemma distanceToLineSegment_proper:
  assumes "\<not> (x1 = x2 \<and> y1 = y2)"
  shows "distanceToLineSegment px py x1 y1 x2 y2
   = sqrt ((px - (x1 + max 0 (min 1 (((px - x1) * (x2 - x1) + (py - y1) * (y2 - y1))
                  / ((x2 - x1) * (x2 - x1) + (y2 - y1) * (y2 - y1)))) * (x2 - x1)))
         * (px - (x1 + max 0 (min 1 (((px - x1) * (x2 - x1) + (py - y1) * (y2 - y1))
                  / ((x2 - x1) * (x2 - x1) + (y2 - y1) * (y2 - y1)))) * (x2 - x1)))
         + (py - (y1 + max 0 (min 1 (((px - x1) * (x2 - x1) + (py - y1) * (y2 - y1))
                  / ((x2 - x1) * (x2 - x1) + (y2 - y1) * (y2 - y1)))) * (y2 - y1)))
         * (py - (y1 + max 0 (min 1 (((px - x1) * (x2 - x1) + (py - y1) * (y2 - y1))
                  / ((x2 - x1) * (x2 - x1) + (y2 - y1) * (y2 - y1)))) * (y2 - y1))))"
proof -
  have "(x2 - x1) * (x2 - x1) + (y2 - y1) * (y2 - y1) \<noteq> 0"
    using assms lengthSquared_zero_iff [of x2 x1 y2 y1] by blast
  then show ?thesis
    unfolding distanceToLineSegment_def Let_def by (simp only: if_False)
qed

lemma distanceToLineSegment_clamped:
  assumes "\<not> (x1 = x2 \<and> y1 = y2)"
  shows "distanceToLineSegment px py x1 y1 x2 y2
     = euclidean px py
         (x1 + max 0 (min 1 (scalar_projection px py x1 y1 x2 y2)) * (x2 - x1))
         (y1 + max 0 (min 1 (scalar_projection px py x1 y1 x2 y2)) * (y2 - y1))"
  unfolding euclidean_def scalar_projection_def
  using assms by (rule distanceToLineSegment_proper)

lemma distanceToLineSegment_attained:
  "\<exists>t. 0 \<le> t \<and> t \<le> 1 \<and>
     distanceToLineSegment px py x1 y1 x2 y2
       = euclidean px py (x1 + t * (x2 - x1)) (y1 + t * (y2 - y1))"
proof (cases "x1 = x2 \<and> y1 = y2")
  case True
  then have "distanceToLineSegment px py x1 y1 x2 y2
       = euclidean px py (x1 + 0 * (x2 - x1)) (y1 + 0 * (y2 - y1))"
    by (simp add: distanceToLineSegment_degenerate euclidean_def)
  then show ?thesis by (intro exI [of _ 0]) simp
next
  case False
  define t where "t = max 0 (min 1 (scalar_projection px py x1 y1 x2 y2))"
  have "0 \<le> t" "t \<le> 1" by (simp_all add: t_def)
  moreover have "distanceToLineSegment px py x1 y1 x2 y2
       = euclidean px py (x1 + t * (x2 - x1)) (y1 + t * (y2 - y1))"
    unfolding t_def using False by (rule distanceToLineSegment_clamped)
  ultimately show ?thesis by blast
qed

lemma distanceToLineSegment_least:
  assumes "0 \<le> s" "s \<le> 1"
  shows "distanceToLineSegment px py x1 y1 x2 y2
       \<le> euclidean px py (x1 + s * (x2 - x1)) (y1 + s * (y2 - y1))"
proof (cases "x1 = x2 \<and> y1 = y2")
  case True
  then show ?thesis
    by (simp add: distanceToLineSegment_degenerate euclidean_def)
next
  case False
  then have L: "(x2 - x1) * (x2 - x1) + (y2 - y1) * (y2 - y1) \<noteq> 0"
    using lengthSquared_zero_iff [of x2 x1 y2 y1] by blast
  define t where "t = max 0 (min 1 (scalar_projection px py x1 y1 x2 y2))"
  have "(px - x1 - t * (x2 - x1)) * (px - x1 - t * (x2 - x1))
        + (py - y1 - t * (y2 - y1)) * (py - y1 - t * (y2 - y1))
     \<le> (px - x1 - s * (x2 - x1)) * (px - x1 - s * (x2 - x1))
        + (py - y1 - s * (y2 - y1)) * (py - y1 - s * (y2 - y1))"
    unfolding t_def scalar_projection_def
    using L assms by (rule clamped_parameter_nearest)
  then have "euclidean px py (x1 + t * (x2 - x1)) (y1 + t * (y2 - y1))
     \<le> euclidean px py (x1 + s * (x2 - x1)) (y1 + s * (y2 - y1))"
    unfolding euclidean_def by (simp add: diff_diff_eq)
  then show ?thesis
    unfolding t_def using distanceToLineSegment_clamped [OF False] by simp
qed

lemma sqrt_25: "sqrt 25 = 5"
proof -
  have "sqrt (5 * 5) = \<bar>5\<bar>" by (rule real_sqrt_abs2)
  then show ?thesis by simp
qed

lemma sqrt_16: "sqrt 16 = 4"
proof -
  have "sqrt (4 * 4) = \<bar>4\<bar>" by (rule real_sqrt_abs2)
  then show ?thesis by simp
qed

text \<open>
  C6. \<open>distanceToLineSegment\<close> is the Euclidean distance, in the coordinate plane, from
  the point to the segment: it is the distance to the point of the segment at the scalar
  projection clamped to [0, 1], this is a point of the segment, and no point of the
  segment is nearer. When the ends of the segment coincide it is the distance to that
  point. For the segment (0,0)-(10,0) the points (5,5) and (-5,0) have distance 5, and
  for the segment (3,3)-(3,3) the point (3,7) has distance 4.
\<close>

theorem distanceToLineSegment_is_distance:
  "(\<not> (x1 = x2 \<and> y1 = y2) \<longrightarrow>
      distanceToLineSegment px py x1 y1 x2 y2
        = euclidean px py
            (x1 + max 0 (min 1 (scalar_projection px py x1 y1 x2 y2)) * (x2 - x1))
            (y1 + max 0 (min 1 (scalar_projection px py x1 y1 x2 y2)) * (y2 - y1))) \<and>
   distanceToLineSegment px py x1 y1 x1 y1 = euclidean px py x1 y1 \<and>
   (\<exists>t. 0 \<le> t \<and> t \<le> 1 \<and>
      distanceToLineSegment px py x1 y1 x2 y2
        = euclidean px py (x1 + t * (x2 - x1)) (y1 + t * (y2 - y1))) \<and>
   (\<forall>s. 0 \<le> s \<and> s \<le> 1 \<longrightarrow>
      distanceToLineSegment px py x1 y1 x2 y2
        \<le> euclidean px py (x1 + s * (x2 - x1)) (y1 + s * (y2 - y1))) \<and>
   distanceToLineSegment 5 5 0 0 10 0 = 5 \<and>
   distanceToLineSegment (- 5) 0 0 0 10 0 = 5 \<and>
   distanceToLineSegment 3 7 3 3 3 3 = 4"
proof -
  have "distanceToLineSegment 5 5 0 0 10 0 = 5"
    by (simp add: distanceToLineSegment_def sqrt_25)
  moreover have "distanceToLineSegment (- 5) 0 0 0 10 0 = 5"
    by (simp add: distanceToLineSegment_def sqrt_25)
  moreover have "distanceToLineSegment 3 7 3 3 3 3 = 4"
    by (simp add: distanceToLineSegment_def sqrt_16)
  moreover have "distanceToLineSegment px py x1 y1 x1 y1 = euclidean px py x1 y1"
    by (simp add: distanceToLineSegment_degenerate euclidean_def)
  ultimately show ?thesis
    using distanceToLineSegment_clamped [of x1 x2 y1 y2 px py]
      distanceToLineSegment_attained [of px py x1 y1 x2 y2]
      distanceToLineSegment_least [of _ px py x1 y1 x2 y2]
    by (simp only: simp_thms) blast
qed

theorem distanceToLineSegment_is_distance_witness:
  "distanceToLineSegment 5 5 0 0 10 0 = euclidean 5 5 5 0 \<and>
   distanceToLineSegment 5 5 0 0 10 0 \<le> euclidean 5 5 10 0"
proof -
  note d = distanceToLineSegment_is_distance [of 0 10 0 0 5 5]
  have "distanceToLineSegment 5 5 0 0 10 0 = euclidean 5 5 5 0"
    using d by (simp add: scalar_projection_def)
  moreover have "\<forall>s. 0 \<le> s \<and> s \<le> 1 \<longrightarrow>
      distanceToLineSegment 5 5 0 0 10 0 \<le> euclidean 5 5 (0 + s * (10 - 0)) (0 + s * (0 - 0))"
    using d by blast
  then have "distanceToLineSegment 5 5 0 0 10 0 \<le> euclidean 5 5 (0 + 1 * (10 - 0)) (0 + 1 * (0 - 0))"
    by (rule allE [of _ 1]) simp
  ultimately show ?thesis by simp
qed

section \<open>Hit testing: shipping lanes\<close>

declare near_segment_from.simps [simp del]

lemma near_segment_from_iff:
  assumes "0 \<le> i"
  shows "near_segment_from lat lon threshold cs i \<longleftrightarrow>
     (\<exists>k \<in> {nat i ..< length cs - 1}.
        distanceToLineSegment lat lon (fst (cs ! k)) (snd (cs ! k))
          (fst (cs ! (k + 1))) (snd (cs ! (k + 1))) < threshold)"
  using assms
proof (induction lat lon threshold cs i rule: near_segment_from.induct)
  case (1 lat lon threshold cs i)
  define d where "d k = distanceToLineSegment lat lon (fst (cs ! k)) (snd (cs ! k))
          (fst (cs ! (k + 1))) (snd (cs ! (k + 1)))" for k
  show ?case
  proof (cases "i < int (length cs) - 1")
    case False
    then have "{nat i ..< length cs - 1} = {}" using "1.prems" by auto
    then show ?thesis
      using False by (simp add: near_segment_from.simps [of lat lon threshold cs i])
  next
    case True
    have n: "nat (i + 1) = nat i + 1" using "1.prems" by simp
    have split: "{nat i ..< length cs - 1} = insert (nat i) {nat i + 1 ..< length cs - 1}"
      using True "1.prems" by auto
    show ?thesis
    proof (cases "d (nat i) < threshold")
      case near: True
      then have "near_segment_from lat lon threshold cs i"
        using True by (simp add: near_segment_from.simps [of lat lon threshold cs i] d_def n)
      moreover have "\<exists>k \<in> {nat i ..< length cs - 1}. d k < threshold"
        using near split by blast
      ultimately show ?thesis by (simp add: d_def)
    next
      case far: False
      have "near_segment_from lat lon threshold cs i
          = near_segment_from lat lon threshold cs (i + 1)"
        using True far
        by (simp add: near_segment_from.simps [of lat lon threshold cs i] d_def n)
      also have "\<dots> \<longleftrightarrow> (\<exists>k \<in> {nat (i + 1) ..< length cs - 1}. d k < threshold)"
        unfolding d_def using True far "1.prems"
        by (intro "1.IH" [OF True refl refl refl]) (simp_all add: d_def n)
      also have "\<dots> \<longleftrightarrow> (\<exists>k \<in> {nat i ..< length cs - 1}. d k < threshold)"
        using far unfolding split n by simp
      finally show ?thesis by (simp add: d_def)
    qed
  qed
qed

lemma first_near_lane_find:
  "first_near_lane lat lon threshold lanes = find (segment_within lat lon threshold) lanes"
  by (induction lanes) (simp_all add: segment_within_def near_segment_from_iff)

lemma sqrt_less_nonneg: "0 \<le> c \<Longrightarrow> sqrt x < c \<longleftrightarrow> x < c * c"
proof -
  assume c: "0 \<le> c"
  have "sqrt x < c \<longleftrightarrow> sqrt x < sqrt (c * c)" using c by simp
  also have "\<dots> \<longleftrightarrow> x < c * c" by (rule real_sqrt_less_iff)
  finally show ?thesis .
qed

lemma bex_upt: "(\<exists>k \<in> {0 ..< n}. P k) \<longleftrightarrow> list_ex P [0 ..< n]"
  by (simp add: list_ex_iff)

text \<open>
  C8. On a canvas of positive size and at a positive zoom, \<open>getShippingLaneAtPoint\<close>
  returns the first lane, in the order of \<open>getShippingLaneData\<close>, that has a segment
  whose distance from the unprojected cursor position is less than 3 / zoom, and it
  returns null exactly when no lane has such a segment.
\<close>

theorem getShippingLaneAtPoint_first_within:
  assumes "0 < zoom r" "0 < canvas_width r" "0 < canvas_height r"
  shows "getShippingLaneAtPoint r mouseX mouseY
      = find (segment_within (fst (toLatLon r mouseX mouseY)) (snd (toLatLon r mouseX mouseY))
                (3 / zoom r)) getShippingLaneData \<and>
    (getShippingLaneAtPoint r mouseX mouseY = None \<longleftrightarrow>
       (\<forall>l \<in> set getShippingLaneData.
          \<not> segment_within (fst (toLatLon r mouseX mouseY)) (snd (toLatLon r mouseX mouseY))
              (3 / zoom r) l)) \<and>
    (\<forall>l. getShippingLaneAtPoint r mouseX mouseY = Some l \<longleftrightarrow>
       (\<exists>i < length getShippingLaneData.
          getShippingLaneData ! i = l \<and>
          segment_within (fst (toLatLon r mouseX mouseY)) (snd (toLatLon r mouseX mouseY))
            (3 / zoom r) l \<and>
          (\<forall>j < i.
             \<not> segment_within (fst (toLatLon r mouseX mouseY)) (snd (toLatLon r mouseX mouseY))
                 (3 / zoom r) (getShippingLaneData ! j))))"
proof -
  define P where "P = segment_within (fst (toLatLon r mouseX mouseY))
    (snd (toLatLon r mouseX mouseY)) (3 / zoom r)"
  have f: "getShippingLaneAtPoint r mouseX mouseY = find P getShippingLaneData"
    by (simp add: getShippingLaneAtPoint_def Let_def split_beta first_near_lane_find P_def)
  have n: "find P getShippingLaneData = None \<longleftrightarrow> (\<forall>l \<in> set getShippingLaneData. \<not> P l)"
    by (auto simp: find_None_iff)
  have s: "find P getShippingLaneData = Some l \<longleftrightarrow>
       (\<exists>i < length getShippingLaneData. getShippingLaneData ! i = l \<and> P l \<and>
          (\<forall>j < i. \<not> P (getShippingLaneData ! j)))" for l
    by (auto simp: find_Some_iff)
  show ?thesis
    using f n s unfolding P_def by simp
qed

theorem getShippingLaneAtPoint_first_within_witness:
  "getShippingLaneAtPoint (new_renderer 360 180) 310 55 = Some (getShippingLaneData ! 1) \<and>
   lane_id (getShippingLaneData ! 1) = ''malacca-strait''"
proof -
  have ll: "toLatLon (new_renderer 360 180) 310 55 = (35, 130)"
    by (simp add: toLatLon_def new_renderer_def)
  have "getShippingLaneAtPoint (new_renderer 360 180) 310 55
      = find (segment_within 35 130 3) getShippingLaneData"
    using getShippingLaneAtPoint_first_within [of "new_renderer 360 180" 310 55]
    by (simp add: ll) (simp add: new_renderer_def)
  also have "\<dots> = Some (getShippingLaneData ! 1)"
    by (simp add: getShippingLaneData_def segment_within_def bex_upt
        distanceToLineSegment_def Let_def sqrt_less_nonneg)
  finally show ?thesis
    by (simp add: getShippingLaneData_def)
qed

section \<open>Drawing: polygons across the antimeridian\<close>








section \<open>Drawing: label placement\<close>



lemma collides_sym: "collides a b \<longleftrightarrow> collides b a"
  by (auto simp: collides_def)

















end
